theory Spec2Isabelle
  imports Complex_Main
begin

section \<open>Values, errors and printed lines\<close>

text \<open>Modelled from the spec: the enumeration \<open>ActivType\<close> of \<open>src.utils\<close>, which the
  source imports and compares against; its members are GELU, RELU, SIGMOID and ID.\<close>

datatype ActivType = GELU | RELU | SIGMOID | ID

text \<open>The dynamically typed values that reach the constructor: the unset sentinel
  \<open>None\<close>, an integer, an activation kind, or a list of values.\<close>

datatype pyval = PNone | PInt int | PActiv ActivType | PList "pyval list"

datatype error = AttributeError | IndexError | TypeError | RuntimeError
  | ValueError | ZeroDivisionError

text \<open>The two \<open>print\<close> calls of the source, kept as events with their arguments.\<close>

datatype printed = ModelDims pyval pyval pyval | NoActivation pyval

text \<open>The configuration object \<open>cfg\<close>, as the specification describes it: an object with
  the four attributes the resolver reads.\<close>

record Container =
  input_size :: pyval
  hidden_size :: pyval
  output_size :: pyval
  activ_type :: pyval

section \<open>Tensors, parameters and linear layers\<close>

text \<open>A tensor is its shape and its elements in row-major order. Elements are reals:
  rounding of machine floats is outside the model.\<close>

record tensor =
  shape :: "nat list"
  data :: "real list"

definition wf_tensor :: "tensor \<Rightarrow> bool" where
  "wf_tensor t = (length (data t) = prod_list (shape t))"

text \<open>A parameter holds its tensor and its gradient slot, empty until a backward pass.\<close>

record Parameter =
  tens :: tensor
  grad :: "tensor option"

record Linear =
  in_features :: nat
  out_features :: nat
  weight :: Parameter
  bias :: Parameter

datatype act_module = nn_GELU | nn_ReLU | nn_Sigmoid | nn_Identity

record Net =
  fc_in :: Linear
  fc_hid :: "Linear list"
  fc_out :: Linear
  act :: act_module

text \<open>The random generator of the framework: an endless supply of numbers, read in order.\<close>

type_synonym source = "nat \<Rightarrow> real"

definition draw :: "nat \<Rightarrow> source \<Rightarrow> real list \<times> source" where
  "draw n s = (map s [0..<n], (\<lambda>i. s (i + n)))"

text \<open>The integers the framework can take as a size: those of 64 bits.\<close>

definition int64 :: "int \<Rightarrow> bool" where
  "int64 i = (- (2 ^ 63) \<le> i \<and> i < 2 ^ 63)"

text \<open>\<open>nn.Linear(i, o)\<close>: a weight of shape \<open>(o, i)\<close> and a bias of shape \<open>(o)\<close>, freshly
  filled from the generator, with empty gradient slots. A width that is not an integer,
  or is one that does not fit 64 bits, is a type error of the framework, raised while
  the sizes are read; a negative width is a runtime error after that. Memory for the
  tensors is taken to be available.\<close>

fun nn_Linear :: "pyval \<Rightarrow> pyval \<Rightarrow> source \<Rightarrow> error + (Linear \<times> source)" where
  "nn_Linear (PInt i) (PInt o') s =
     (if \<not> int64 i \<or> \<not> int64 o' then Inl TypeError
      else if i < 0 \<or> o' < 0 then Inl RuntimeError
      else (let (w, s1) = draw (nat o' * nat i) s;
                (b, s2) = draw (nat o') s1
            in Inr (\<lparr>in_features = nat i, out_features = nat o',
                      weight = \<lparr>tens = \<lparr>shape = [nat o', nat i], data = w\<rparr>, grad = None\<rparr>,
                      bias = \<lparr>tens = \<lparr>shape = [nat o'], data = b\<rparr>, grad = None\<rparr>\<rparr>, s2)))"
| "nn_Linear _ _ s = Inl TypeError"

section \<open>The configuration resolver and the activation selector\<close>

text \<open>A call of \<open>default_model\<close> runs on a state of two parts. The objects are what the
  caller passed: the four argument objects and the configuration object, which the callee
  shares with the caller. The local names of the callee are bound to the argument
  objects on entry; an assignment to a local name binds it anew and leaves every object
  as it is.\<close>

record state =
  v_input_size :: pyval
  v_hidden_size :: pyval
  v_output_size :: pyval
  v_activation :: pyval
  arg_objects :: "pyval \<times> pyval \<times> pyval \<times> pyval"
  cfg_object :: "Container option"

definition enter :: "pyval \<Rightarrow> pyval \<Rightarrow> pyval \<Rightarrow> pyval \<Rightarrow> Container option \<Rightarrow> state" where
  "enter ins his ous acv cfg =
     \<lparr>v_input_size = ins, v_hidden_size = his, v_output_size = ous, v_activation = acv,
      arg_objects = (ins, his, ous, acv), cfg_object = cfg\<rparr>"

text \<open>The body up to the \<open>return\<close>: under the guard \<open>cfg is not None\<close>, the four
  statements \<open>if v is None: v = cfg.attribute\<close> in their order.\<close>

definition default_model_body :: "state \<Rightarrow> state" where
  "default_model_body st =
     (case cfg_object st of
        None \<Rightarrow> st
      | Some c \<Rightarrow>
          (let st1 = (if v_input_size st = PNone then st\<lparr>v_input_size := input_size c\<rparr> else st);
               st2 = (if v_hidden_size st1 = PNone then st1\<lparr>v_hidden_size := hidden_size c\<rparr>
                      else st1);
               st3 = (if v_output_size st2 = PNone then st2\<lparr>v_output_size := output_size c\<rparr>
                      else st2);
               st4 = (if v_activation st3 = PNone then st3\<lparr>v_activation := activ_type c\<rparr>
                      else st3)
           in st4))"

definition returned :: "state \<Rightarrow> pyval \<times> pyval \<times> pyval \<times> pyval" where
  "returned st = (v_input_size st, v_hidden_size st, v_output_size st, v_activation st)"

definition default_model ::
  "pyval \<Rightarrow> pyval \<Rightarrow> pyval \<Rightarrow> pyval \<Rightarrow> Container option \<Rightarrow> pyval \<times> pyval \<times> pyval \<times> pyval" where
  "default_model ins his ous acv cfg = returned (default_model_body (enter ins his ous acv cfg))"

definition select_activation :: "pyval \<Rightarrow> act_module \<times> printed list" where
  "select_activation activation =
     (if activation = PActiv GELU then (nn_GELU, [])
      else if activation = PActiv RELU then (nn_ReLU, [])
      else if activation = PActiv SIGMOID then (nn_Sigmoid, [])
      else if activation = PActiv ID then (nn_Identity, [])
      else (nn_Identity, [NoActivation activation]))"

section \<open>Construction\<close>

text \<open>List indexing of the host language: a negative index counts from the end, an index
  out of range raises.\<close>

definition getitem :: "pyval list \<Rightarrow> int \<Rightarrow> error + pyval" where
  "getitem xs i =
     (let k = (if i < 0 then i + int (length xs) else i)
      in if k < 0 \<or> int (length xs) \<le> k then Inl IndexError else Inr (xs ! nat k))"

text \<open>The loop \<open>for i in range(len(his)-1)\<close>, over the indices it visits; \<open>acc\<close> is the
  list the loop appends to.\<close>

fun build_hid ::
  "pyval list \<Rightarrow> nat list \<Rightarrow> Linear list \<Rightarrow> source \<Rightarrow> error + (Linear list \<times> source)" where
  "build_hid his [] acc s = Inr (acc, s)"
| "build_hid his (i # is) acc s =
     (case nn_Linear (his ! i) (his ! Suc i) s of
        Inl e \<Rightarrow> Inl e
      | Inr (l, s') \<Rightarrow> build_hid his is (acc @ [l]) s')"

definition as_list :: "pyval \<Rightarrow> pyval list" where
  "as_list his = (case his of PList xs \<Rightarrow> xs | _ \<Rightarrow> [his])"

definition Net_init ::
  "Container option \<Rightarrow> pyval \<Rightarrow> pyval \<Rightarrow> pyval \<Rightarrow> pyval \<Rightarrow> pyval \<Rightarrow> bool \<Rightarrow> source
     \<Rightarrow> error + (Net \<times> source \<times> printed list)" where
  "Net_init cfg input_size' hidden_size' output_size' activation task_type verbose s =
     (case default_model input_size' hidden_size' output_size' activation cfg of
        (ins, his0, ous, acv) \<Rightarrow>
          (let out1 = (if verbose then [ModelDims ins his0 ous] else []);
               his = as_list his0
           in case getitem his 0 of
                Inl e \<Rightarrow> Inl e
              | Inr h0 \<Rightarrow>
                 (case nn_Linear ins h0 s of
                    Inl e \<Rightarrow> Inl e
                  | Inr (l_in, s1) \<Rightarrow>
                     (case build_hid his [0..<length his - 1] [] s1 of
                        Inl e \<Rightarrow> Inl e
                      | Inr (hid, s2) \<Rightarrow>
                         (case getitem his (- 1) of
                            Inl e \<Rightarrow> Inl e
                          | Inr hl \<Rightarrow>
                             (case nn_Linear hl ous s2 of
                                Inl e \<Rightarrow> Inl e
                              | Inr (l_out, s3) \<Rightarrow>
                                 (case select_activation acv of
                                    (a, out2) \<Rightarrow>
                                      Inr (\<lparr>fc_in = l_in, fc_hid = hid, fc_out = l_out, act = a\<rparr>,
                                           s3, out1 @ out2))))))))"

section \<open>Forward evaluation\<close>

text \<open>The tensor a caller passes to \<open>forward\<close> may be any view of a storage: it has its
  sizes, the stride of each dimension, and the storage read from its first element on.
  The tensors the layers make are dense, so for them the record \<open>tensor\<close> is kept.\<close>

record strided =
  sizes :: "nat list"
  strides :: "nat list"
  storage :: "real list"

text \<open>The elements of a view in row-major order of its indices.\<close>

fun elems :: "nat list \<Rightarrow> nat list \<Rightarrow> nat \<Rightarrow> real list \<Rightarrow> real list" where
  "elems [] ss off st = [st ! off]"
| "elems (n # ns) (s # ss) off st = concat (map (\<lambda>i. elems ns ss (off + i * s) st) [0..<n])"
| "elems (n # ns) [] off st = []"

text \<open>Neighbouring dimensions, given as pairs of size and stride, can be merged into one
  when each stride is the next size times the next stride.\<close>

fun mergeable :: "(nat \<times> nat) list \<Rightarrow> bool" where
  "mergeable ((n1, s1) # (n2, s2) # r) = (s1 = n2 * s2 \<and> mergeable ((n2, s2) # r))"
| "mergeable _ = True"

definition view_compatible :: "strided \<Rightarrow> bool" where
  "view_compatible x =
     mergeable (filter (\<lambda>(n, s). n \<noteq> 1) (zip (tl (sizes x)) (tl (strides x))))"

text \<open>\<open>x.view(x.shape[0], -1)\<close>: reading the first dimension of a tensor without
  dimensions raises; the framework cannot infer the second dimension when the first is
  zero; and a view with elements is refused unless the dimensions after the first, those
  of size one aside, can be merged. The result has the elements of \<open>x\<close> in their order.\<close>

definition view_batch :: "strided \<Rightarrow> error + tensor" where
  "view_batch x =
     (case sizes x of
        [] \<Rightarrow> Inl IndexError
      | b # rest \<Rightarrow>
          if b = 0 then Inl RuntimeError
          else if prod_list (sizes x) \<noteq> 0 \<and> \<not> view_compatible x then Inl RuntimeError
          else Inr \<lparr>shape = [b, prod_list (sizes x) div b],
                    data = elems (sizes x) (strides x) 0 (storage x)\<rparr>)"

text \<open>The affine map of a layer on \<open>n\<close> rows: entry \<open>(r, j)\<close> of the result is the inner
  product of row \<open>r\<close> of the input with row \<open>j\<close> of the weight, plus entry \<open>j\<close> of the
  bias.\<close>

definition affine :: "nat \<Rightarrow> nat \<Rightarrow> nat \<Rightarrow> real list \<Rightarrow> real list \<Rightarrow> real list \<Rightarrow> real list" where
  "affine n i o' W B xs =
     concat (map (\<lambda>r. map (\<lambda>j. (\<Sum>k\<leftarrow>[0..<i]. xs ! (r * i + k) * W ! (j * i + k)) + B ! j)
                             [0..<o']) [0..<n])"

text \<open>Calling a layer on a two-dimensional tensor, as \<open>forward\<close> does after the reshape:
  the row length must be the layer's input width.\<close>

definition Linear_call :: "Linear \<Rightarrow> tensor \<Rightarrow> error + tensor" where
  "Linear_call l x =
     (case (shape x, shape (tens (weight l))) of
        ([n, k], [o', i]) \<Rightarrow>
          if k = i
          then Inr \<lparr>shape = [n, o'],
                    data = affine n i o' (data (tens (weight l))) (data (tens (bias l))) (data x)\<rparr>
          else Inl RuntimeError
      | _ \<Rightarrow> Inl RuntimeError)"

text \<open>The activation modules act on each element. The scalar map of GELU needs the
  Gaussian distribution function, so it is a parameter \<open>gelu\<close> of the model.\<close>

fun act_scalar :: "(real \<Rightarrow> real) \<Rightarrow> act_module \<Rightarrow> real \<Rightarrow> real" where
  "act_scalar gelu nn_GELU v = gelu v"
| "act_scalar gelu nn_ReLU v = max 0 v"
| "act_scalar gelu nn_Sigmoid v = 1 / (1 + exp (- v))"
| "act_scalar gelu nn_Identity v = v"

definition act_call :: "(real \<Rightarrow> real) \<Rightarrow> act_module \<Rightarrow> tensor \<Rightarrow> tensor" where
  "act_call gelu a x = \<lparr>shape = shape x, data = map (act_scalar gelu a) (data x)\<rparr>"

fun forward_hid :: "(real \<Rightarrow> real) \<Rightarrow> act_module \<Rightarrow> Linear list \<Rightarrow> tensor \<Rightarrow> error + tensor" where
  "forward_hid gelu a [] x = Inr x"
| "forward_hid gelu a (l # ls) x =
     (case Linear_call l x of
        Inl e \<Rightarrow> Inl e
      | Inr y \<Rightarrow> forward_hid gelu a ls (act_call gelu a y))"

definition forward :: "(real \<Rightarrow> real) \<Rightarrow> Net \<Rightarrow> strided \<Rightarrow> error + tensor" where
  "forward gelu net x =
     (case view_batch x of
        Inl e \<Rightarrow> Inl e
      | Inr x0 \<Rightarrow>
         (case Linear_call (fc_in net) x0 of
            Inl e \<Rightarrow> Inl e
          | Inr x1 \<Rightarrow>
             (case forward_hid gelu (act net) (fc_hid net) (act_call gelu (act net) x1) of
                Inl e \<Rightarrow> Inl e
              | Inr x2 \<Rightarrow> Linear_call (fc_out net) x2)))"

section \<open>Initialisation\<close>

text \<open>\<open>nn.init.xavier_uniform_\<close>: the fans of a tensor with at least two dimensions are
  its second and first sizes, each times the product of the remaining sizes; every
  element is redrawn uniformly between \<open>-a\<close> and \<open>a\<close> with
  \<open>a = sqrt 3 * sqrt (2 / (fan_in + fan_out))\<close>. The generator supplies the uniform draws
  from the unit interval.\<close>

definition xavier_uniform :: "tensor \<Rightarrow> source \<Rightarrow> error + (tensor \<times> source)" where
  "xavier_uniform t s =
     (case shape t of
        o' # i # rest \<Rightarrow>
          (let fan_in = i * prod_list rest; fan_out = o' * prod_list rest
           in if fan_in + fan_out = 0 then Inl ZeroDivisionError
              else (let a = sqrt 3 * sqrt (2 / real (fan_in + fan_out));
                        (us, s') = draw (prod_list (shape t)) s
                    in Inr (\<lparr>shape = shape t, data = map (\<lambda>u. - a + (a - (- a)) * u) us\<rparr>, s')))
      | _ \<Rightarrow> Inl ValueError)"

definition init_weight :: "Linear \<Rightarrow> source \<Rightarrow> error + (Linear \<times> source)" where
  "init_weight l s =
     (case xavier_uniform (tens (weight l)) s of
        Inl e \<Rightarrow> Inl e
      | Inr (t, s') \<Rightarrow> Inr (l\<lparr>weight := (weight l)\<lparr>tens := t\<rparr>\<rparr>, s'))"

fun initialize_hid :: "Linear list \<Rightarrow> source \<Rightarrow> error + (Linear list \<times> source)" where
  "initialize_hid [] s = Inr ([], s)"
| "initialize_hid (l # ls) s =
     (case init_weight l s of
        Inl e \<Rightarrow> Inl e
      | Inr (l', s') \<Rightarrow>
         (case initialize_hid ls s' of
            Inl e \<Rightarrow> Inl e
          | Inr (ls', s'') \<Rightarrow> Inr (l' # ls', s'')))"

definition initialize :: "Net \<Rightarrow> source \<Rightarrow> error + (Net \<times> source)" where
  "initialize net s =
     (case init_weight (fc_in net) s of
        Inl e \<Rightarrow> Inl e
      | Inr (l_in, s1) \<Rightarrow>
         (case initialize_hid (fc_hid net) s1 of
            Inl e \<Rightarrow> Inl e
          | Inr (hid, s2) \<Rightarrow>
             (case init_weight (fc_out net) s2 of
                Inl e \<Rightarrow> Inl e
              | Inr (l_out, s3) \<Rightarrow>
                  Inr (net\<lparr>fc_in := l_in, fc_hid := hid, fc_out := l_out\<rparr>, s3))))"

section \<open>Parameter extraction\<close>

text \<open>\<open>t.cpu().view(-1).clone()\<close> is the list of the elements of \<open>t\<close>, and \<open>torch.cat\<close>
  of two such vectors is their concatenation. Each loop over \<open>fc_hid\<close> is a left fold
  with the vector built so far.\<close>

definition flat :: "Parameter \<Rightarrow> real list" where
  "flat p = data (tens p)"

definition get_weights :: "Net \<Rightarrow> real list" where
  "get_weights net =
     foldl (\<lambda>w l. w @ flat (weight l)) (flat (weight (fc_in net))) (fc_hid net)
       @ flat (weight (fc_out net))"

definition get_biases :: "Net \<Rightarrow> real list" where
  "get_biases net =
     foldl (\<lambda>b l. b @ flat (bias l)) (flat (bias (fc_in net))) (fc_hid net)
       @ flat (bias (fc_out net))"

definition get_wb :: "Net \<Rightarrow> real list" where
  "get_wb net =
     foldl (\<lambda>wb l. wb @ (flat (weight l) @ flat (bias l)))
           (flat (weight (fc_in net)) @ flat (bias (fc_in net))) (fc_hid net)
       @ (flat (weight (fc_out net)) @ flat (bias (fc_out net)))"

text \<open>\<open>p._grad.cpu()\<close>: on an empty gradient slot the attribute \<open>cpu\<close> is looked up on
  \<open>None\<close>, which raises.\<close>

definition flat_grad :: "Parameter \<Rightarrow> error + real list" where
  "flat_grad p = (case grad p of None \<Rightarrow> Inl AttributeError | Some g \<Rightarrow> Inr (data g))"

definition layer_grads :: "Linear \<Rightarrow> error + real list" where
  "layer_grads l =
     (case flat_grad (weight l) of
        Inl e \<Rightarrow> Inl e
      | Inr gw \<Rightarrow> (case flat_grad (bias l) of Inl e \<Rightarrow> Inl e | Inr gb \<Rightarrow> Inr (gw @ gb)))"

fun grads_hid :: "Linear list \<Rightarrow> real list \<Rightarrow> error + real list" where
  "grads_hid [] g = Inr g"
| "grads_hid (l # ls) g =
     (case layer_grads l of Inl e \<Rightarrow> Inl e | Inr g_i \<Rightarrow> grads_hid ls (g @ g_i))"

definition get_grads :: "Net \<Rightarrow> error + real list" where
  "get_grads net =
     (case layer_grads (fc_in net) of
        Inl e \<Rightarrow> Inl e
      | Inr g0 \<Rightarrow>
         (case grads_hid (fc_hid net) g0 of
            Inl e \<Rightarrow> Inl e
          | Inr g \<Rightarrow>
             (case layer_grads (fc_out net) of
                Inl e \<Rightarrow> Inl e
              | Inr g_out \<Rightarrow> Inr (g @ g_out))))"

section \<open>Shared notions for the statements\<close>

definition layers :: "Net \<Rightarrow> Linear list" where
  "layers net = fc_in net # fc_hid net @ [fc_out net]"

definition dims :: "Linear \<Rightarrow> pyval \<times> pyval" where
  "dims l = (PInt (int (in_features l)), PInt (int (out_features l)))"

definition wf_Linear :: "Linear \<Rightarrow> bool" where
  "wf_Linear l =
     (shape (tens (weight l)) = [out_features l, in_features l]
      \<and> length (data (tens (weight l))) = out_features l * in_features l
      \<and> shape (tens (bias l)) = [out_features l]
      \<and> length (data (tens (bias l))) = out_features l)"



definition lin :: "Linear \<Rightarrow> tensor \<Rightarrow> tensor" where
  "lin l x =
     \<lparr>shape = [hd (shape x), out_features l],
      data = affine (hd (shape x)) (in_features l) (out_features l)
               (data (tens (weight l))) (data (tens (bias l))) (data x)\<rparr>"


text \<open>Forward evaluation with the linear layers only, with their checks: what the
  specification compares a network without activation with.\<close>

fun linear_hid :: "Linear list \<Rightarrow> tensor \<Rightarrow> error + tensor" where
  "linear_hid [] x = Inr x"
| "linear_hid (l # ls) x =
     (case Linear_call l x of Inl e \<Rightarrow> Inl e | Inr y \<Rightarrow> linear_hid ls y)"

definition linear_only :: "Net \<Rightarrow> strided \<Rightarrow> error + tensor" where
  "linear_only net x =
     (case view_batch x of
        Inl e \<Rightarrow> Inl e
      | Inr x0 \<Rightarrow>
         (case Linear_call (fc_in net) x0 of
            Inl e \<Rightarrow> Inl e
          | Inr x1 \<Rightarrow>
             (case linear_hid (fc_hid net) x1 of
                Inl e \<Rightarrow> Inl e
              | Inr x2 \<Rightarrow> Linear_call (fc_out net) x2)))"

text \<open>The bound of the Xavier scheme for a tensor, the generators that supply draws from
  the unit interval, and what \<open>initialize\<close> may change in a layer: the elements of the
  weight, within the bound of its shape, and nothing else.\<close>

definition xavier_bound :: "tensor \<Rightarrow> real" where
  "xavier_bound t =
     (case shape t of
        o' # i # rest \<Rightarrow> sqrt 3 * sqrt (2 / real (i * prod_list rest + o' * prod_list rest))
      | _ \<Rightarrow> 0)"

definition unit_source :: "source \<Rightarrow> bool" where
  "unit_source s = (\<forall>k. 0 \<le> s k \<and> s k \<le> 1)"

definition reinitialised :: "Linear \<Rightarrow> Linear \<Rightarrow> bool" where
  "reinitialised l l' =
     (bias l' = bias l \<and> in_features l' = in_features l \<and> out_features l' = out_features l
      \<and> grad (weight l') = grad (weight l)
      \<and> shape (tens (weight l')) = shape (tens (weight l))
      \<and> length (data (tens (weight l'))) = prod_list (shape (tens (weight l)))
      \<and> list_all (\<lambda>v. \<bar>v\<bar> \<le> xavier_bound (tens (weight l))) (data (tens (weight l'))))"

text \<open>What the Xavier scheme writes, said without the code's threading of the generator:
  the weights are taken in construction order; the weight at position \<open>j\<close> uses the draws that
  follow those of the weights before it, one for each of its elements, and a draw \<open>u\<close>
  becomes the element \<open>(2 * u - 1) * a\<close> for the bound \<open>a\<close> of that weight.\<close>

definition numel :: "tensor \<Rightarrow> nat" where
  "numel t = prod_list (shape t)"

definition redrawn :: "source \<Rightarrow> tensor list \<Rightarrow> real list list" where
  "redrawn s ts =
     map (\<lambda>j. map (\<lambda>k. (2 * s (sum_list (map numel (take j ts)) + k) - 1) * xavier_bound (ts ! j))
                   [0..<numel (ts ! j)])
         [0..<length ts]"

text \<open>What \<open>initialize\<close> leaves as it is in a layer.\<close>

definition untouched :: "Linear \<Rightarrow> Linear \<Rightarrow> bool" where
  "untouched l l' =
     (bias l' = bias l \<and> in_features l' = in_features l \<and> out_features l' = out_features l
      \<and> grad (weight l') = grad (weight l)
      \<and> shape (tens (weight l')) = shape (tens (weight l)))"

definition quarter_source :: source where
  "quarter_source = (\<lambda>i. 1 / 4)"

definition example_cfg :: Container where
  "example_cfg = \<lparr>input_size = PInt 7, hidden_size = PList [PInt 4, PInt 4],
                  output_size = PInt 1, activ_type = PActiv GELU\<rparr>"

definition zero_source :: source where
  "zero_source = (\<lambda>i. 0)"

definition idims :: "Linear \<Rightarrow> int \<times> int" where
  "idims l = (int (in_features l), int (out_features l))"

text \<open>A layer as the constructor leaves it: shapes that fit its widths and empty gradient
  slots.\<close>

definition fresh :: "Linear \<Rightarrow> bool" where
  "fresh l = (wf_Linear l \<and> grad (weight l) = None \<and> grad (bias l) = None)"

definition zeros :: "nat list \<Rightarrow> Parameter" where
  "zeros sh = \<lparr>tens = \<lparr>shape = sh, data = replicate (prod_list sh) 0\<rparr>, grad = None\<rparr>"

definition zero_Linear :: "nat \<Rightarrow> nat \<Rightarrow> Linear" where
  "zero_Linear i o' =
     \<lparr>in_features = i, out_features = o', weight = zeros [o', i], bias = zeros [o']\<rparr>"


text \<open>The network of the example \<open>hidden_size=[4,4]\<close>, \<open>input_size=3\<close>, \<open>output_size=1\<close>,
  as the constructor builds it from the generator that only yields zero.\<close>

definition example_net :: Net where
  "example_net =
     \<lparr>fc_in = zero_Linear 3 4, fc_hid = [zero_Linear 4 4], fc_out = zero_Linear 4 1,
      act = nn_Identity\<rparr>"

section \<open>The resolver\<close>

lemma default_model_None: "default_model ins his ous acv None = (ins, his, ous, acv)"
  by (simp add: default_model_def default_model_body_def enter_def returned_def)

lemma default_model_Some:
  "default_model ins his ous acv (Some c) =
     (if ins = PNone then input_size c else ins,
      if his = PNone then hidden_size c else his,
      if ous = PNone then output_size c else ous,
      if acv = PNone then activ_type c else acv)"
  by (simp add: default_model_def default_model_body_def enter_def returned_def Let_def)

lemma body_objects:
  "arg_objects (default_model_body st) = arg_objects st
   \<and> cfg_object (default_model_body st) = cfg_object st"
  by (simp add: default_model_body_def Let_def split: option.splits)

text \<open>C6: for all arguments and every configuration object, present or not, the resolver
  returns four values; an argument that is set is returned as it is, an unset one is the
  attribute of the same name of the configuration object (\<open>activ_type\<close> for the
  activation), and without a configuration object the four arguments come back as they
  are. When the body has run, the four argument objects and the configuration object
  are what they were on entry: only local names have been bound anew.\<close>

theorem default_model_resolves:
  "arg_objects (default_model_body (enter ins his ous acv cfg)) = (ins, his, ous, acv)
   \<and> cfg_object (default_model_body (enter ins his ous acv cfg)) = cfg
   \<and> (case default_model ins his ous acv cfg of
        (ri, rh, ro, ra) \<Rightarrow>
          (ins \<noteq> PNone \<longrightarrow> ri = ins) \<and> (his \<noteq> PNone \<longrightarrow> rh = his)
          \<and> (ous \<noteq> PNone \<longrightarrow> ro = ous) \<and> (acv \<noteq> PNone \<longrightarrow> ra = acv)
          \<and> (\<forall>c. cfg = Some c \<longrightarrow>
                (ins = PNone \<longrightarrow> ri = input_size c) \<and> (his = PNone \<longrightarrow> rh = hidden_size c)
                \<and> (ous = PNone \<longrightarrow> ro = output_size c) \<and> (acv = PNone \<longrightarrow> ra = activ_type c))
          \<and> (cfg = None \<longrightarrow> (ri, rh, ro, ra) = (ins, his, ous, acv)))"
proof -
  have "arg_objects (default_model_body (enter ins his ous acv cfg)) = (ins, his, ous, acv)"
    and "cfg_object (default_model_body (enter ins his ous acv cfg)) = cfg"
    using body_objects [of "enter ins his ous acv cfg"] by (simp_all add: enter_def)
  moreover have "case default_model ins his ous acv cfg of
        (ri, rh, ro, ra) \<Rightarrow>
          (ins \<noteq> PNone \<longrightarrow> ri = ins) \<and> (his \<noteq> PNone \<longrightarrow> rh = his)
          \<and> (ous \<noteq> PNone \<longrightarrow> ro = ous) \<and> (acv \<noteq> PNone \<longrightarrow> ra = acv)
          \<and> (\<forall>c. cfg = Some c \<longrightarrow>
                (ins = PNone \<longrightarrow> ri = input_size c) \<and> (his = PNone \<longrightarrow> rh = hidden_size c)
                \<and> (ous = PNone \<longrightarrow> ro = output_size c) \<and> (acv = PNone \<longrightarrow> ra = activ_type c))
          \<and> (cfg = None \<longrightarrow> (ri, rh, ro, ra) = (ins, his, ous, acv))"
  proof (cases cfg)
    case None
    then show ?thesis by (simp add: default_model_None)
  next
    case (Some c)
    then show ?thesis by (simp add: default_model_Some)
  qed
  ultimately show ?thesis by simp
qed

theorem default_model_resolves_witness:
  "default_model (PInt 3) PNone PNone (PActiv RELU) (Some example_cfg)
     = (PInt 3, PList [PInt 4, PInt 4], PInt 1, PActiv RELU)
   \<and> cfg_object (default_model_body (enter (PInt 3) PNone PNone (PActiv RELU) (Some example_cfg)))
       = Some example_cfg
   \<and> arg_objects (default_model_body (enter (PInt 3) PNone PNone (PActiv RELU) (Some example_cfg)))
       = (PInt 3, PNone, PNone, PActiv RELU)"
  using default_model_resolves [of "PInt 3" PNone PNone "PActiv RELU" "Some example_cfg"]
  by (auto simp: example_cfg_def split: prod.splits)

section \<open>Construction: what a successful call builds\<close>


lemma getitem_Nil: "getitem [] i = Inl IndexError"
  by (simp add: getitem_def Let_def)

lemma getitem_first: "xs \<noteq> [] \<Longrightarrow> getitem xs 0 = Inr (hd xs)"
  by (cases xs) (simp_all add: getitem_def Let_def)

lemma getitem_last: "xs \<noteq> [] \<Longrightarrow> getitem xs (- 1) = Inr (last xs)"
proof -
  assume ne: "xs \<noteq> []"
  then have "nat (- 1 + int (length xs)) = length xs - 1" by (cases xs) simp_all
  with ne show ?thesis
    by (simp add: getitem_def Let_def last_conv_nth)
qed

lemma getitem_Inr_nonempty: "getitem xs i = Inr v \<Longrightarrow> xs \<noteq> []"
  by (auto simp: getitem_Nil)

lemma nn_Linear_Inr:
  assumes "nn_Linear a b s = Inr (l, s')"
  shows "dims l = (a, b) \<and> wf_Linear l \<and> grad (weight l) = None \<and> grad (bias l) = None"
proof -
  obtain i o' where ab: "a = PInt i" "b = PInt o'"
    using assms by (cases a; cases b) simp_all
  with assms have nn: "0 \<le> i" "0 \<le> o'" "int64 i" "int64 o'" by (auto split: if_splits)
  with assms ab show ?thesis
    by (auto simp: dims_def wf_Linear_def draw_def Let_def split: if_splits)
qed


lemma build_hid_Inr:
  "build_hid his is acc s = Inr (ls, s') \<Longrightarrow>
     \<exists>new. ls = acc @ new \<and> map dims new = map (\<lambda>i. (his ! i, his ! Suc i)) is
        \<and> (\<forall>l\<in>set new. fresh l)"
proof (induction "is" arbitrary: acc s)
  case Nil
  then show ?case by simp
next
  case (Cons i "is")
  from Cons.prems obtain l s1 where
    l: "nn_Linear (his ! i) (his ! Suc i) s = Inr (l, s1)"
    and rest: "build_hid his is (acc @ [l]) s1 = Inr (ls, s')"
    by (auto split: sum.splits)
  from Cons.IH [OF rest] obtain new where
    new: "ls = (acc @ [l]) @ new" "map dims new = map (\<lambda>i. (his ! i, his ! Suc i)) is"
      "\<forall>l\<in>set new. fresh l" by blast
  from nn_Linear_Inr [OF l] have "dims l = (his ! i, his ! Suc i)" "fresh l"
    by (simp_all add: fresh_def)
  with new show ?case by (intro exI [of _ "l # new"]) simp
qed


lemma pairs_upt: "map (\<lambda>i. (xs ! i, xs ! Suc i)) [0..<length xs - 1] = zip xs (tl xs)"
  by (rule nth_equalityI) (auto simp: nth_tl)

lemma chain_zip:
  "hs \<noteq> [] \<Longrightarrow> (a, hd hs) # zip hs (tl hs) @ [(last hs, b)] = zip (a # hs) (hs @ [b])"
proof (induction hs arbitrary: a)
  case Nil
  then show ?case by simp
next
  case (Cons h hs)
  then show ?case by (cases hs) simp_all
qed


lemma Net_init_Inr:
  assumes ok: "Net_init cfg i0 h0 o0 a0 tt verbose s = Inr (net, s', out)"
    and dm: "default_model i0 h0 o0 a0 cfg = (ins, his0, ous, acv)"
  shows "as_list his0 \<noteq> []"
    and "map dims (layers net) = zip (ins # as_list his0) (as_list his0 @ [ous])"
    and "\<forall>l\<in>set (layers net). fresh l"
    and "act net = fst (select_activation acv)"
    and "out = (if verbose then [ModelDims ins his0 ous] else []) @ snd (select_activation acv)"
    and "dims (fc_in net) = (ins, hd (as_list his0))"
    and "map dims (fc_hid net) = zip (as_list his0) (tl (as_list his0))"
    and "dims (fc_out net) = (last (as_list his0), ous)"
proof -
  let ?hs = "as_list his0"
  from ok dm obtain hf l_in s1 hid s2 hl l_out s3 where
    hf: "getitem ?hs 0 = Inr hf"
    and lin: "nn_Linear ins hf s = Inr (l_in, s1)"
    and bh: "build_hid ?hs [0..<length ?hs - 1] [] s1 = Inr (hid, s2)"
    and hl: "getitem ?hs (- 1) = Inr hl"
    and lout: "nn_Linear hl ous s2 = Inr (l_out, s3)"
    and net: "net = \<lparr>fc_in = l_in, fc_hid = hid, fc_out = l_out, act = fst (select_activation acv)\<rparr>"
    and out: "out = (if verbose then [ModelDims ins his0 ous] else []) @ snd (select_activation acv)"
    unfolding Net_init_def Let_def
    by (auto split: sum.splits prod.splits)
  show ne: "?hs \<noteq> []" using hf by (rule getitem_Inr_nonempty)
  from hf hl ne have hfl: "hf = hd ?hs" "hl = last ?hs"
    by (simp_all add: getitem_first getitem_last)
  from build_hid_Inr [OF bh] have
    hid: "map dims hid = zip ?hs (tl ?hs)" "\<forall>l\<in>set hid. fresh l"
    by (auto simp: pairs_upt simp del: One_nat_def)
  from nn_Linear_Inr [OF lin] nn_Linear_Inr [OF lout] hfl have
    io: "dims l_in = (ins, hd ?hs)" "dims l_out = (last ?hs, ous)" "fresh l_in" "fresh l_out"
    by (simp_all add: fresh_def)
  show "map dims (layers net) = zip (ins # ?hs) (?hs @ [ous])"
    using hid(1) io(1,2) chain_zip [OF ne, of ins ous] by (simp add: net layers_def)
  show "\<forall>l\<in>set (layers net). fresh l"
    using hid(2) io(3,4) by (simp add: net layers_def)
  show "act net = fst (select_activation acv)" by (simp add: net)
  show "out = (if verbose then [ModelDims ins his0 ous] else []) @ snd (select_activation acv)"
    by (rule out)
  show "dims (fc_in net) = (ins, hd ?hs)" using io(1) by (simp add: net)
  show "map dims (fc_hid net) = zip ?hs (tl ?hs)" using hid(1) by (simp add: net)
  show "dims (fc_out net) = (last ?hs, ous)" using io(2) by (simp add: net)
qed



lemma draw_zero: "draw n zero_source = (replicate n 0, zero_source)"
  by (simp add: draw_def zero_source_def map_replicate_const)

lemma nn_Linear_zero:
  "int i < 2 ^ 63 \<Longrightarrow> int o' < 2 ^ 63 \<Longrightarrow>
     nn_Linear (PInt (int i)) (PInt (int o')) zero_source = Inr (zero_Linear i o', zero_source)"
  by (simp add: draw_zero zero_Linear_def zeros_def int64_def)

lemma Net_init_example:
  "Net_init None (PInt 3) (PList [PInt 4, PInt 4]) (PInt 1) PNone PNone True zero_source
     = Inr (example_net, zero_source,
            [ModelDims (PInt 3) (PList [PInt 4, PInt 4]) (PInt 1), NoActivation PNone])"
proof -
  have l34: "nn_Linear (PInt 3) (PInt 4) zero_source = Inr (zero_Linear 3 4, zero_source)"
    using nn_Linear_zero [of 3 4] by simp
  have l44: "nn_Linear (PInt 4) (PInt 4) zero_source = Inr (zero_Linear 4 4, zero_source)"
    using nn_Linear_zero [of 4 4] by simp
  have l41: "nn_Linear (PInt 4) (PInt 1) zero_source = Inr (zero_Linear 4 1, zero_source)"
    using nn_Linear_zero [of 4 1] by simp
  have up: "[0..<length [PInt 4, PInt 4] - 1] = [0]" by simp
  show ?thesis
    unfolding Net_init_def Let_def default_model_None as_list_def
    by (simp add: getitem_def l34 l44 l41 select_activation_def example_net_def
          del: nn_Linear.simps)
qed

text \<open>C2: whenever the constructor succeeds, a hidden size that is not a list has been
  wrapped into a one-element list, and the chain of layers is: the input layer from the
  input size to the first hidden width, one hidden layer for each pair of neighbouring
  hidden widths, and the output layer from the last hidden width to the output size.
  In the example \<open>[4,4]\<close>, 3, 1 the chain is 3->4, 4->4, 4->1.\<close>

theorem Net_init_layer_chain:
  assumes "Net_init cfg i0 h0 o0 a0 tt verbose s = Inr (net, s', out)"
    and "default_model i0 h0 o0 a0 cfg = (ins, his0, ous, acv)"
  shows "(case his0 of PList xs \<Rightarrow> as_list his0 = xs | _ \<Rightarrow> as_list his0 = [his0])
     \<and> as_list his0 \<noteq> []
     \<and> dims (fc_in net) = (ins, hd (as_list his0))
     \<and> map dims (fc_hid net) = zip (as_list his0) (tl (as_list his0))
     \<and> dims (fc_out net) = (last (as_list his0), ous)
     \<and> map dims (layers net) = zip (ins # as_list his0) (as_list his0 @ [ous])"
proof -
  have "case his0 of PList xs \<Rightarrow> as_list his0 = xs | _ \<Rightarrow> as_list his0 = [his0]"
    by (simp add: as_list_def split: pyval.splits)
  moreover note Net_init_Inr(1,2) [OF assms]
  moreover have "dims (fc_in net) = (ins, hd (as_list his0))"
    "map dims (fc_hid net) = zip (as_list his0) (tl (as_list his0))"
    "dims (fc_out net) = (last (as_list his0), ous)"
    using Net_init_Inr(6,7,8) [OF assms] by simp_all
  ultimately show ?thesis by simp
qed

theorem Net_init_layer_chain_witness:
  "dims (fc_in example_net) = (PInt 3, PInt 4)
   \<and> map dims (fc_hid example_net) = [(PInt 4, PInt 4)]
   \<and> dims (fc_out example_net) = (PInt 4, PInt 1)
   \<and> map dims (layers example_net) = [(PInt 3, PInt 4), (PInt 4, PInt 4), (PInt 4, PInt 1)]"
  using Net_init_layer_chain [OF Net_init_example default_model_None]
  by (simp add: as_list_def)


section \<open>Construction: failures\<close>

text \<open>C10: with an empty list as hidden size, given directly or through the
  configuration object, construction raises the index error of reading position 0,
  whatever the other arguments are: no layer constructor is reached.\<close>

theorem Net_init_empty_hidden:
  "Net_init cfg i0 (PList []) o0 a0 tt verbose s = Inl IndexError
   \<and> Net_init (Some (c\<lparr>hidden_size := PList []\<rparr>)) i0 PNone o0 a0 tt verbose s = Inl IndexError"
  by (cases cfg)
     (simp_all add: Net_init_def default_model_None default_model_Some as_list_def getitem_Nil)

section \<open>Gradient extraction before a backward pass\<close>

lemma fresh_layer_grads: "fresh l \<Longrightarrow> layer_grads l = Inl AttributeError"
  by (simp add: fresh_def layer_grads_def flat_grad_def)

text \<open>C8: on a network as the constructor returns it, \<open>get_grads\<close> raises on the empty
  gradient slot, and every layer has empty gradient slots for weight and bias and would
  raise in the same way.\<close>

theorem get_grads_before_backward:
  assumes "Net_init cfg i0 h0 o0 a0 tt verbose s = Inr (net, s', out)"
  shows "get_grads net = Inl AttributeError
     \<and> (\<forall>l\<in>set (layers net). grad (weight l) = None \<and> grad (bias l) = None
            \<and> layer_grads l = Inl AttributeError)"
proof -
  obtain ins his0 ous acv where dm: "default_model i0 h0 o0 a0 cfg = (ins, his0, ous, acv)"
    by (cases "default_model i0 h0 o0 a0 cfg") auto
  from Net_init_Inr(3) [OF assms dm] have fr: "\<forall>l\<in>set (layers net). fresh l" .
  then have "fresh (fc_in net)" by (simp add: layers_def)
  then have "get_grads net = Inl AttributeError"
    by (simp add: get_grads_def fresh_layer_grads)
  moreover from fr have "\<forall>l\<in>set (layers net). grad (weight l) = None \<and> grad (bias l) = None
            \<and> layer_grads l = Inl AttributeError"
    by (auto simp: fresh_layer_grads) (simp_all add: fresh_def)
  ultimately show ?thesis by simp
qed

theorem get_grads_before_backward_witness:
  "get_grads example_net = Inl AttributeError
     \<and> map layer_grads (layers example_net)
         = [Inl AttributeError, Inl AttributeError, Inl AttributeError]
     \<and> map (\<lambda>l. (grad (weight l), grad (bias l))) (layers example_net)
         = [(None, None), (None, None), (None, None)]"
  using get_grads_before_backward [OF Net_init_example]
  by (simp add: layers_def example_net_def)

section \<open>Construction without configuration and without sizes\<close>

text \<open>Against C7 as stated: without a configuration object and with every argument unset,
  the error of the constructor is not an attribute-access error.\<close>

theorem Net_init_unset_counterexample:
  "Net_init None PNone PNone PNone PNone PNone True zero_source \<noteq> Inl AttributeError"
  by (simp add: Net_init_def default_model_None as_list_def getitem_def)

text \<open>C7, amended: without a configuration object the resolver hands the unset sizes
  back unchanged and raises nothing (it is guarded by \<open>cfg is not None\<close> and checks neither
  type nor range); construction then fails in the constructor of the first linear
  layer, which rejects the unset widths with a type error.\<close>

theorem Net_init_unset:
  "default_model PNone PNone PNone acv None = (PNone, PNone, PNone, acv)
   \<and> Net_init None PNone PNone PNone acv tt verbose s = Inl TypeError"
  by (simp add: Net_init_def default_model_None as_list_def getitem_def)

section \<open>Parameter vectors\<close>


lemma foldl_append_concat: "foldl (\<lambda>acc l. acc @ f l) a ls = a @ concat (map f ls)"
  by (induction ls arbitrary: a) simp_all

lemma get_weights_layers: "get_weights net = concat (map (\<lambda>l. flat (weight l)) (layers net))"
  by (simp add: get_weights_def layers_def foldl_append_concat)

lemma get_biases_layers: "get_biases net = concat (map (\<lambda>l. flat (bias l)) (layers net))"
  by (simp add: get_biases_def layers_def foldl_append_concat)

lemma get_wb_layers:
  "get_wb net = concat (map (\<lambda>l. flat (weight l) @ flat (bias l)) (layers net))"
  by (simp add: get_wb_def layers_def foldl_append_concat)

text \<open>C4: the vector of \<open>get_wb\<close> is as long as those of \<open>get_weights\<close> and
  \<open>get_biases\<close> together, and it consists of the layers in construction order (input
  layer, hidden layers in order, output layer), each contributing its flattened weight
  followed by its bias.\<close>

theorem get_wb_interleaved:
  "length (get_wb net) = length (get_weights net) + length (get_biases net)
   \<and> get_wb net
       = concat (map (\<lambda>l. flat (weight l) @ flat (bias l))
                     (fc_in net # fc_hid net @ [fc_out net]))"
proof -
  have "length (get_wb net) = length (get_weights net) + length (get_biases net)"
    by (simp add: get_wb_layers get_weights_layers get_biases_layers length_concat
        sum_list_addf o_def)
  moreover have "get_wb net
       = concat (map (\<lambda>l. flat (weight l) @ flat (bias l))
                     (fc_in net # fc_hid net @ [fc_out net]))"
    using get_wb_layers [of net] by (simp add: layers_def)
  ultimately show ?thesis by simp
qed

lemma dims_idims: "dims l = map_prod PInt PInt (idims l)"
  by (simp add: dims_def idims_def)

lemma zip_map_both: "zip (map f xs) (map f ys) = map (map_prod f f) (zip xs ys)"
proof (induction xs arbitrary: ys)
  case Nil
  then show ?case by simp
next
  case (Cons x xs)
  then show ?case by (cases ys) simp_all
qed

lemma zip_tl_map: "zip (map f ws) (tl (map f ws)) = map (map_prod f f) (zip ws (tl ws))"
proof -
  have "tl (map f ws) = map f (tl ws)" by (cases ws) simp_all
  then show ?thesis by (simp only: zip_map_both)
qed

lemma idims_of_dims:
  assumes "map dims ls = zip (map PInt ws) (tl (map PInt ws))"
  shows "map idims ls = zip ws (tl ws)"
proof -
  have inj: "inj (map_prod PInt PInt)" by (auto simp: inj_on_def)
  have "map (map_prod PInt PInt) (map idims ls) = map (map_prod PInt PInt) (zip ws (tl ws))"
  proof -
    have "map (map_prod PInt PInt) (map idims ls) = map dims ls"
      by (simp add: dims_idims)
    with assms show ?thesis by (simp only: zip_tl_map)
  qed
  then show ?thesis using inj by (simp only: inj_map_eq_map)
qed

lemma fresh_lengths:
  "fresh l \<Longrightarrow> int (length (flat (weight l))) = fst (idims l) * snd (idims l)"
  "fresh l \<Longrightarrow> int (length (flat (bias l))) = snd (idims l)"
  by (simp_all add: fresh_def wf_Linear_def flat_def idims_def)

lemma sum_weights_hid:
  "\<forall>l\<in>set ls. fresh l \<Longrightarrow>
     int (\<Sum>l\<leftarrow>ls. length (flat (weight l))) = (\<Sum>(a, b)\<leftarrow>map idims ls. a * b)"
  by (induction ls) (simp_all add: fresh_lengths case_prod_beta)

lemma sum_biases_hid:
  "\<forall>l\<in>set ls. fresh l \<Longrightarrow>
     int (\<Sum>l\<leftarrow>ls. length (flat (bias l))) = sum_list (map snd (map idims ls))"
  by (induction ls) (simp_all add: fresh_lengths)

lemma map_snd_zip_tl: "map snd (zip ws (tl ws)) = tl ws"
  by (cases ws) (simp_all add: map_snd_zip_take)

text \<open>C3: for a constructed network with input width \<open>i\<close>, hidden widths \<open>ws\<close> and output
  width \<open>o'\<close>, \<open>get_weights\<close> has length \<open>i * hd ws\<close> plus the sum of the products of
  neighbouring hidden widths plus \<open>last ws * o'\<close>; \<open>get_biases\<close> has as length the widths
  of the hidden layers (the hidden widths after the first) and of the output layer plus
  the first hidden width, which is the sum of all hidden widths plus the output width.
  In the example \<open>[4,4]\<close>, 3, 1 these are 32 and 9.\<close>

theorem parameter_vector_lengths:
  assumes ok: "Net_init cfg i0 h0 o0 a0 tt verbose s = Inr (net, s', out)"
    and dm: "default_model i0 h0 o0 a0 cfg = (PInt i, his0, PInt o', acv)"
    and hs: "as_list his0 = map PInt ws"
  shows "int (length (get_weights net))
           = i * hd ws + (\<Sum>(a, b)\<leftarrow>zip ws (tl ws). a * b) + last ws * o'
     \<and> int (length (get_biases net)) = sum_list (tl ws) + o' + hd ws
     \<and> int (length (get_biases net)) = sum_list ws + o'"
proof -
  note N = Net_init_Inr [OF ok dm]
  have ne: "ws \<noteq> []" using N(1) hs by auto
  from N(3) have fr: "fresh (fc_in net)" "\<forall>l\<in>set (fc_hid net). fresh l" "fresh (fc_out net)"
    by (simp_all add: layers_def)
  from N(6) hs ne have din: "idims (fc_in net) = (i, hd ws)"
    by (simp add: dims_def idims_def hd_map)
  from N(8) hs ne have dout: "idims (fc_out net) = (last ws, o')"
    by (simp add: dims_def idims_def last_map)
  from N(7) hs have dhid: "map idims (fc_hid net) = zip ws (tl ws)"
    by (simp add: idims_of_dims)
  have w: "int (length (get_weights net))
           = i * hd ws + (\<Sum>(a, b)\<leftarrow>zip ws (tl ws). a * b) + last ws * o'"
    using fresh_lengths(1) [OF fr(1)] fresh_lengths(1) [OF fr(3)] sum_weights_hid [OF fr(2)]
    by (simp add: get_weights_layers layers_def length_concat o_def din dout dhid)
  have b: "int (length (get_biases net)) = sum_list (tl ws) + o' + hd ws"
    using fresh_lengths(2) [OF fr(1)] fresh_lengths(2) [OF fr(3)] sum_biases_hid [OF fr(2)]
    by (simp add: get_biases_layers layers_def length_concat o_def din dout dhid map_snd_zip_tl)
  have "sum_list ws = hd ws + sum_list (tl ws)" using ne by (cases ws) simp_all
  with w b show ?thesis by simp
qed

lemma example_as_list: "as_list (PList [PInt 4, PInt 4]) = map PInt [4, 4]"
  by (simp add: as_list_def)

theorem parameter_vector_lengths_witness:
  "length (get_weights example_net) = 32 \<and> length (get_biases example_net) = 9"
  using parameter_vector_lengths [OF Net_init_example default_model_None example_as_list]
  by simp

section \<open>Forward evaluation of a constructed network\<close>




lemma shape_act_call [simp]: "shape (act_call g a x) = shape x"
  by (simp add: act_call_def)












section \<open>Unrecognised activation\<close>

text \<open>C5: for an activation value that is none of GELU, RELU, SIGMOID, ID (the unset value
  included), \<open>select_activation\<close> returns the identity and prints its notice, and a
  network constructed with it evaluates \<open>forward\<close> as the linear layers alone do.\<close>

theorem unrecognized_activation:
  assumes ok: "Net_init cfg i0 h0 o0 a0 tt verbose s = Inr (net, s', out)"
    and dm: "default_model i0 h0 o0 a0 cfg = (ins, his0, ous, acv)"
    and un: "acv \<notin> {PActiv GELU, PActiv RELU, PActiv SIGMOID, PActiv ID}"
  shows "select_activation acv = (nn_Identity, [NoActivation acv])
     \<and> NoActivation acv \<in> set out
     \<and> act net = nn_Identity
     \<and> forward g net x = linear_only net x"
proof -
  from un have sel: "select_activation acv = (nn_Identity, [NoActivation acv])"
    by (simp add: select_activation_def)
  from Net_init_Inr(4,5) [OF ok dm] sel have a: "act net = nn_Identity"
    and o: "NoActivation acv \<in> set out" by simp_all
  have "act_scalar g nn_Identity = (\<lambda>v. v)" by (rule ext) simp
  then have id: "act_call g nn_Identity t = t" for t by (cases t) (simp add: act_call_def)
  have hid: "forward_hid g nn_Identity ls t = linear_hid ls t" for ls t
    by (induction ls arbitrary: t) (simp_all add: id split: sum.splits)
  have "forward g net x = linear_only net x"
    unfolding forward_def linear_only_def a
    by (simp add: id hid split: sum.splits)
  with sel a o show ?thesis by simp
qed

theorem unrecognized_activation_witness:
  "select_activation PNone = (nn_Identity, [NoActivation PNone])
   \<and> act example_net = nn_Identity
   \<and> forward (max 0) example_net \<lparr>sizes = [2, 3], strides = [3, 1], storage = [1, 2, 3, 4, 5, 6]\<rparr>
       = linear_only example_net \<lparr>sizes = [2, 3], strides = [3, 1], storage = [1, 2, 3, 4, 5, 6]\<rparr>"
  using unrecognized_activation [OF Net_init_example default_model_None, of "max 0"
      "\<lparr>sizes = [2, 3], strides = [3, 1], storage = [1, 2, 3, 4, 5, 6]\<rparr>"]
  by simp

section \<open>Initialisation changes the weights only\<close>

lemma unit_source_draw: "unit_source s \<Longrightarrow> draw n s = (us, s') \<Longrightarrow>
   unit_source s' \<and> length us = n \<and> (\<forall>u\<in>set us. 0 \<le> u \<and> u \<le> 1)"
  by (auto simp: unit_source_def draw_def)

lemma xavier_range:
  fixes a u :: real
  assumes "0 \<le> a" "0 \<le> u" "u \<le> 1"
  shows "\<bar>- a + (a - (- a)) * u\<bar> \<le> a"
proof -
  have "0 \<le> a * u" "a * u \<le> a" using assms by (simp_all add: mult_left_le)
  then show ?thesis by (simp add: algebra_simps abs_le_iff)
qed

lemma xavier_uniform_Inr:
  assumes "xavier_uniform t s = Inr (t', s')" and "unit_source s"
  shows "shape t' = shape t \<and> length (data t') = prod_list (shape t)
     \<and> list_all (\<lambda>v. \<bar>v\<bar> \<le> xavier_bound t) (data t') \<and> unit_source s'"
proof -
  from assms(1) obtain o' i rest where sh: "shape t = o' # i # rest"
    by (auto simp: xavier_uniform_def split: list.splits)
  let ?a = "sqrt 3 * sqrt (2 / real (i * prod_list rest + o' * prod_list rest))"
  obtain us s1 where d: "draw (prod_list (shape t)) s = (us, s1)"
    by (cases "draw (prod_list (shape t)) s") auto
  from assms(1) sh d have t': "t' = \<lparr>shape = shape t, data = map (\<lambda>u. - ?a + (?a - (- ?a)) * u) us\<rparr>"
    and s': "s' = s1"
    by (auto simp: xavier_uniform_def Let_def split: if_splits)
  note D = unit_source_draw [OF assms(2) d]
  have a0: "0 \<le> ?a" by simp
  have "\<forall>u\<in>set us. \<bar>- ?a + (?a - (- ?a)) * u\<bar> \<le> ?a"
    using D xavier_range [OF a0] by blast
  then have "list_all (\<lambda>v. \<bar>v\<bar> \<le> xavier_bound t) (data t')"
    by (simp add: t' xavier_bound_def sh list_all_iff)
  with D t' s' show ?thesis by simp
qed

lemma init_weight_Inr:
  assumes "init_weight l s = Inr (l', s')" and "unit_source s"
  shows "reinitialised l l' \<and> unit_source s'"
proof -
  from assms(1) obtain t where x: "xavier_uniform (tens (weight l)) s = Inr (t, s')"
    and l': "l' = l\<lparr>weight := (weight l)\<lparr>tens := t\<rparr>\<rparr>"
    by (auto simp: init_weight_def split: sum.splits)
  from xavier_uniform_Inr [OF x assms(2)] l' show ?thesis
    by (simp add: reinitialised_def)
qed

lemma initialize_hid_Inr:
  "initialize_hid ls s = Inr (ls', s') \<Longrightarrow> unit_source s \<Longrightarrow>
     list_all2 reinitialised ls ls' \<and> unit_source s'"
proof (induction ls arbitrary: s ls')
  case Nil
  then show ?case by simp
next
  case (Cons l ls)
  from Cons.prems(1) obtain l1 s1 ls1 where
    a: "init_weight l s = Inr (l1, s1)" and b: "initialize_hid ls s1 = Inr (ls1, s')"
    and c: "ls' = l1 # ls1"
    by (auto split: sum.splits)
  from init_weight_Inr [OF a Cons.prems(2)] have r: "reinitialised l l1" "unit_source s1"
    by simp_all
  from Cons.IH [OF b r(2)] r(1) c show ?case by simp
qed

lemma xavier_uniform_ok:
  "shape t = [o', i] \<Longrightarrow> 0 < i + o' \<Longrightarrow> \<exists>t' s'. xavier_uniform t s = Inr (t', s')"
  by (simp add: xavier_uniform_def Let_def split: prod.splits)

lemma init_weight_ok:
  assumes "wf_Linear l" "0 < in_features l + out_features l"
  shows "\<exists>l' s'. init_weight l s = Inr (l', s')"
proof -
  from assms have "shape (tens (weight l)) = [out_features l, in_features l]"
    by (simp add: wf_Linear_def)
  from xavier_uniform_ok [OF this assms(2), of s] show ?thesis
    by (auto simp: init_weight_def)
qed

lemma initialize_hid_ok:
  "\<forall>l\<in>set ls. wf_Linear l \<and> 0 < in_features l + out_features l \<Longrightarrow>
     \<exists>ls' s'. initialize_hid ls s = Inr (ls', s')"
proof (induction ls arbitrary: s)
  case Nil
  then show ?case by simp
next
  case (Cons l ls)
  then obtain l' s1 where a: "init_weight l s = Inr (l', s1)"
    using init_weight_ok [of l s] by auto
  from Cons obtain ls' s2 where "initialize_hid ls s1 = Inr (ls', s2)" by fastforce
  with a show ?case by simp
qed

lemma xavier_uniform_eq:
  assumes "xavier_uniform t s = Inr (t', s')"
  shows "t' = \<lparr>shape = shape t,
               data = map (\<lambda>k. (2 * s k - 1) * xavier_bound t) [0..<numel t]\<rparr>"
    and "s' = (\<lambda>k. s (k + numel t))"
proof -
  from assms obtain o' i rest where sh: "shape t = o' # i # rest"
    by (auto simp: xavier_uniform_def split: list.splits)
  have alg: "- a + (a - (- a)) * u = (2 * u - 1) * a" for a u :: real
    by (simp add: algebra_simps)
  from assms sh have "t' = \<lparr>shape = shape t,
               data = map (\<lambda>u. - xavier_bound t + (xavier_bound t - (- xavier_bound t)) * u)
                          (map s [0..<numel t])\<rparr>"
    by (auto simp: xavier_uniform_def Let_def draw_def xavier_bound_def numel_def
        split: if_splits)
  then show "t' = \<lparr>shape = shape t,
               data = map (\<lambda>k. (2 * s k - 1) * xavier_bound t) [0..<numel t]\<rparr>"
    by (simp only: alg map_map o_def)
  from assms sh show "s' = (\<lambda>k. s (k + numel t))"
    by (auto simp: xavier_uniform_def Let_def draw_def numel_def split: if_splits)
qed

lemma init_weight_eq:
  assumes "init_weight l s = Inr (l', s')"
  shows "untouched l l'"
    and "data (tens (weight l'))
           = map (\<lambda>k. (2 * s k - 1) * xavier_bound (tens (weight l))) [0..<numel (tens (weight l))]"
    and "s' = (\<lambda>k. s (k + numel (tens (weight l))))"
proof -
  from assms obtain t where x: "xavier_uniform (tens (weight l)) s = Inr (t, s')"
    and l': "l' = l\<lparr>weight := (weight l)\<lparr>tens := t\<rparr>\<rparr>"
    by (auto simp: init_weight_def split: sum.splits)
  note X = xavier_uniform_eq [OF x]
  from X(1) l' show "untouched l l'" by (simp add: untouched_def)
  from X(1) l' show "data (tens (weight l'))
           = map (\<lambda>k. (2 * s k - 1) * xavier_bound (tens (weight l))) [0..<numel (tens (weight l))]"
    by simp
  from X(2) show "s' = (\<lambda>k. s (k + numel (tens (weight l))))" .
qed

lemma redrawn_Nil: "redrawn s [] = []"
  by (simp add: redrawn_def)

lemma redrawn_Cons:
  "redrawn s (t # ts)
     = map (\<lambda>k. (2 * s k - 1) * xavier_bound t) [0..<numel t]
       # redrawn (\<lambda>k. s (k + numel t)) ts"
proof -
  have "redrawn s (t # ts)
      = map (\<lambda>j. map (\<lambda>k. (2 * s (sum_list (map numel (take j (t # ts))) + k) - 1)
                              * xavier_bound ((t # ts) ! j))
                   [0..<numel ((t # ts) ! j)])
         [0..<Suc (length ts)]"
    by (simp add: redrawn_def)
  also have "\<dots> = map (\<lambda>k. (2 * s k - 1) * xavier_bound t) [0..<numel t]
       # map (\<lambda>j. map (\<lambda>k. (2 * s (sum_list (map numel (take (Suc j) (t # ts))) + k) - 1)
                              * xavier_bound ((t # ts) ! Suc j))
                   [0..<numel ((t # ts) ! Suc j)])
         [0..<length ts]"
    by (simp only: map_upt_Suc) simp
  also have "\<dots> = map (\<lambda>k. (2 * s k - 1) * xavier_bound t) [0..<numel t]
       # redrawn (\<lambda>k. s (k + numel t)) ts"
    by (simp add: redrawn_def add.commute add.left_commute)
  finally show ?thesis .
qed

lemma initialize_hid_redrawn:
  "initialize_hid ls s = Inr (ls', s') \<Longrightarrow>
     list_all2 untouched ls ls'
     \<and> map (\<lambda>l. data (tens (weight l))) ls' = redrawn s (map (\<lambda>l. tens (weight l)) ls)
     \<and> s' = (\<lambda>k. s (k + sum_list (map numel (map (\<lambda>l. tens (weight l)) ls))))"
proof (induction ls arbitrary: s ls')
  case Nil
  then show ?case by (simp add: redrawn_Nil)
next
  case (Cons l ls)
  from Cons.prems obtain l1 s1 ls1 where
    a: "init_weight l s = Inr (l1, s1)" and b: "initialize_hid ls s1 = Inr (ls1, s')"
    and c: "ls' = l1 # ls1"
    by (auto split: sum.splits)
  note A = init_weight_eq [OF a]
  note B = Cons.IH [OF b]
  from A B c show ?case
    by (simp add: redrawn_Cons add.assoc add.commute add.left_commute)
qed

lemma initialize_hid_append:
  "initialize_hid (xs @ ys) s =
     (case initialize_hid xs s of
        Inl e \<Rightarrow> Inl e
      | Inr (xs', s1) \<Rightarrow>
          (case initialize_hid ys s1 of
             Inl e \<Rightarrow> Inl e
           | Inr (ys', s2) \<Rightarrow> Inr (xs' @ ys', s2)))"
  by (induction xs arbitrary: s) (auto split: sum.splits)

lemma initialize_layers:
  assumes "initialize net s = Inr (net', s')"
  shows "initialize_hid (layers net) s = Inr (layers net', s')" and "act net' = act net"
proof -
  from assms obtain l_in s1 hid s2 l_out where
    a: "init_weight (fc_in net) s = Inr (l_in, s1)"
    and b: "initialize_hid (fc_hid net) s1 = Inr (hid, s2)"
    and c: "init_weight (fc_out net) s2 = Inr (l_out, s')"
    and n: "net' = net\<lparr>fc_in := l_in, fc_hid := hid, fc_out := l_out\<rparr>"
    by (auto simp: initialize_def split: sum.splits)
  from a b c n show "initialize_hid (layers net) s = Inr (layers net', s')"
    by (simp add: layers_def initialize_hid_append)
  from n show "act net' = act net" by simp
qed

text \<open>C9: \<open>initialize\<close> returns on a network whose layers have consistent shapes and a
  positive fan sum. Whenever it returns, the weight of every layer (input, hidden in
  order, output) has been overwritten by the Xavier scheme: its elements are the draws
  the generator yields next, in construction order, each scaled to the bound of that
  weight, and the generator has moved on by the number of weights; they lie within the
  bound when the draws come from the unit interval. Each bias, each gradient slot, the
  widths, the shape of each weight, the number of hidden layers and the activation are
  as before.\<close>

theorem initialize_frame:
  "((\<forall>l\<in>set (layers net). wf_Linear l \<and> 0 < in_features l + out_features l)
      \<longrightarrow> (\<exists>net' s'. initialize net s = Inr (net', s')))
   \<and> (initialize net s = Inr (net', s') \<longrightarrow>
        act net' = act net
        \<and> length (fc_hid net') = length (fc_hid net)
        \<and> list_all2 untouched (layers net) (layers net')
        \<and> map (\<lambda>l. data (tens (weight l))) (layers net')
            = redrawn s (map (\<lambda>l. tens (weight l)) (layers net))
        \<and> s' = (\<lambda>k. s (k + sum_list (map numel (map (\<lambda>l. tens (weight l)) (layers net)))))
        \<and> (unit_source s \<longrightarrow> list_all2 reinitialised (layers net) (layers net')))"
proof (rule conjI; intro impI)
  assume wf: "\<forall>l\<in>set (layers net). wf_Linear l \<and> 0 < in_features l + out_features l"
  then obtain l_in s1 where a: "init_weight (fc_in net) s = Inr (l_in, s1)"
    using init_weight_ok [of "fc_in net" s] by (auto simp: layers_def)
  from wf obtain hid s2 where b: "initialize_hid (fc_hid net) s1 = Inr (hid, s2)"
    using initialize_hid_ok [of "fc_hid net" s1] by (auto simp: layers_def)
  from wf obtain l_out s3 where c: "init_weight (fc_out net) s2 = Inr (l_out, s3)"
    using init_weight_ok [of "fc_out net" s2] by (auto simp: layers_def)
  from a b c show "\<exists>net' s'. initialize net s = Inr (net', s')"
    by (simp add: initialize_def)
next
  assume ok: "initialize net s = Inr (net', s')"
  note L = initialize_layers [OF ok]
  note R = initialize_hid_redrawn [OF L(1)]
  from R have "list_all2 untouched (layers net) (layers net')" by simp
  then have "length (layers net) = length (layers net')"
    by (rule list_all2_lengthD)
  then have len: "length (fc_hid net') = length (fc_hid net)" by (simp add: layers_def)
  have "unit_source s \<longrightarrow> list_all2 reinitialised (layers net) (layers net')"
    using initialize_hid_Inr [OF L(1)] by simp
  with L(2) R len show "act net' = act net
        \<and> length (fc_hid net') = length (fc_hid net)
        \<and> list_all2 untouched (layers net) (layers net')
        \<and> map (\<lambda>l. data (tens (weight l))) (layers net')
            = redrawn s (map (\<lambda>l. tens (weight l)) (layers net))
        \<and> s' = (\<lambda>k. s (k + sum_list (map numel (map (\<lambda>l. tens (weight l)) (layers net)))))
        \<and> (unit_source s \<longrightarrow> list_all2 reinitialised (layers net) (layers net'))"
    by simp
qed

lemma example_net_wf:
  "\<forall>l\<in>set (layers example_net). wf_Linear l \<and> 0 < in_features l + out_features l"
  by (simp add: layers_def example_net_def zero_Linear_def zeros_def wf_Linear_def)

lemma redrawn_quarter:
  "redrawn quarter_source ts = map (\<lambda>t. replicate (numel t) (- xavier_bound t / 2)) ts"
proof -
  have "redrawn quarter_source ts
      = map (\<lambda>j. (\<lambda>t. replicate (numel t) (- xavier_bound t / 2)) (ts ! j)) [0..<length ts]"
    by (simp add: redrawn_def quarter_source_def map_replicate_const)
  also have "\<dots> = map (\<lambda>t. replicate (numel t) (- xavier_bound t / 2)) ts"
    by (rule nth_equalityI) simp_all
  finally show ?thesis .
qed

lemma example_weights:
  "map (\<lambda>l. tens (weight l)) (layers example_net)
     = [\<lparr>shape = [4, 3], data = replicate 12 0\<rparr>, \<lparr>shape = [4, 4], data = replicate 16 0\<rparr>,
        \<lparr>shape = [1, 4], data = replicate 4 0\<rparr>]"
  by (simp add: layers_def example_net_def zero_Linear_def zeros_def)

theorem initialize_frame_witness:
  "\<exists>net' s'. initialize example_net quarter_source = Inr (net', s')
      \<and> act net' = nn_Identity
      \<and> list_all2 untouched (layers example_net) (layers net')
      \<and> map (\<lambda>l. data (tens (weight l))) (layers net')
          = [replicate 12 (- (sqrt 3 * sqrt (2 / 7)) / 2),
             replicate 16 (- (sqrt 3 * sqrt (2 / 8)) / 2),
             replicate 4 (- (sqrt 3 * sqrt (2 / 5)) / 2)]"
proof -
  from initialize_frame [of example_net quarter_source] example_net_wf
  obtain net' s' where ok: "initialize example_net quarter_source = Inr (net', s')" by blast
  from initialize_frame [of example_net quarter_source net' s'] ok have
    "act net' = act example_net"
    "list_all2 untouched (layers example_net) (layers net')"
    "map (\<lambda>l. data (tens (weight l))) (layers net')
       = redrawn quarter_source (map (\<lambda>l. tens (weight l)) (layers example_net))"
    by simp_all
  moreover have "redrawn quarter_source (map (\<lambda>l. tens (weight l)) (layers example_net))
      = [replicate 12 (- (sqrt 3 * sqrt (2 / 7)) / 2),
             replicate 16 (- (sqrt 3 * sqrt (2 / 8)) / 2),
             replicate 4 (- (sqrt 3 * sqrt (2 / 5)) / 2)]"
    unfolding example_weights redrawn_quarter
    by (simp add: numel_def xavier_bound_def)
  moreover have "act example_net = nn_Identity" by (simp add: example_net_def)
  ultimately show ?thesis using ok by auto
qed

end
